theory Spec2Isabelle
  imports Complex_Main "HOL-Library.Word"
begin

section \<open>JavaScript values\<close>

text \<open>
  A JavaScript string is a sequence of UTF-16 code units, so U+2028 and U+2029 are
  single elements. \<open>js\<close> turns an ASCII literal into such a sequence.
\<close>

type_synonym code_unit = "16 word"
type_synonym jsstring = "code_unit list"

definition js :: "string \<Rightarrow> jsstring" where
  "js s = map (\<lambda>c. word_of_nat (of_char c)) s"

definition backslash :: code_unit where
  "backslash = 0x5C"

definition dquote :: code_unit where
  "dquote = 0x22"

text \<open>
  The values the loader handles. \<open>'n\<close> is the type of JavaScript numbers: their
  arithmetic and rendering belong to the runtime and are taken from the environment
  below. An object is the list of its own enumerable properties in the order
  \<open>Object.keys\<close> yields them; property names that are array indices, which JavaScript
  enumerates first, are not distinguished (option names are identifiers). A
  \<open>Serializable\<close> holds the text its \<open>render\<close> thunk returns. \<open>Fun f\<close> is the function
  with identifier \<open>f\<close>; the environment says what a call returns.
\<close>

datatype 'n jsval =
    Undefined
  | Null
  | Bool bool
  | Num 'n
  | Str jsstring
  | Arr "'n jsval list"
  | Obj "(jsstring \<times> 'n jsval) list"
  | Serializable jsstring
  | Fun nat

type_synonym 'n obj = "(jsstring \<times> 'n jsval) list"
type_synonym bytes = "8 word list"

datatype error = TypeError

text \<open>
  What the code takes from the JavaScript runtime and from the libraries it imports
  (sharp, loader-utils, mime): number conversion, arithmetic and rendering, calls of
  preset functions, the members every object inherits from \<open>Object.prototype\<close>
  (\<open>Undefined\<close> where there is none), \<open>sharp.gravity.center\<close>, \<open>mime.getType\<close>,
  \<open>Buffer.toString('base64')\<close>, \<open>loaderUtils.interpolateName\<close> (resource path, loader
  options, template, context, content) and the encoder behind \<open>toBuffer\<close>, which
  receives the operations recorded on an image handle.
\<close>

record 'n env =
  toNumber :: "'n jsval \<Rightarrow> 'n"
  numText :: "'n \<Rightarrow> jsstring"
  numTruthy :: "'n \<Rightarrow> bool"
  times :: "'n \<Rightarrow> 'n \<Rightarrow> 'n"
  divide_num :: "'n \<Rightarrow> 'n \<Rightarrow> 'n"
  mathMax :: "'n list \<Rightarrow> 'n"
  call :: "nat \<Rightarrow> 'n jsval list \<Rightarrow> 'n jsval"
  funText :: "nat \<Rightarrow> jsstring"
  objectProto :: "jsstring \<Rightarrow> 'n jsval"
  gravityCenter :: "'n jsval"
  getType :: "jsstring \<Rightarrow> 'n jsval"
  toBase64 :: "bytes \<Rightarrow> jsstring"
  interpolateName :: "jsstring \<Rightarrow> 'n jsval \<Rightarrow> jsstring \<Rightarrow> 'n jsval \<Rightarrow> bytes \<Rightarrow> jsstring"
  toBuffer :: "(jsstring \<times> 'n jsval list) list \<Rightarrow> 'n jsval + (bytes \<times> 'n obj)"

subsection \<open>Property access and coercions\<close>

text \<open>\<open>o[k]\<close> on own properties; \<open>o[k] = v\<close> keeps the place of a key that is there.\<close>

definition own :: "('k \<times> 'v) list \<Rightarrow> 'k \<Rightarrow> 'v option" where
  "own ps k = map_of ps k"

fun obj_set :: "'k \<Rightarrow> 'v \<Rightarrow> ('k \<times> 'v) list \<Rightarrow> ('k \<times> 'v) list" where
  "obj_set k v [] = [(k, v)]"
| "obj_set k v (p # ps) = (if fst p = k then (k, v) # ps else p # obj_set k v ps)"

definition get_prop :: "'n obj \<Rightarrow> jsstring \<Rightarrow> 'n jsval" where
  "get_prop ps k = (case own ps k of Some v \<Rightarrow> v | None \<Rightarrow> Undefined)"

text \<open>A lookup under a computed key also sees the inherited members.\<close>

definition get_member :: "'n env \<Rightarrow> 'n obj \<Rightarrow> jsstring \<Rightarrow> 'n jsval" where
  "get_member rt ps k = (case own ps k of Some v \<Rightarrow> v | None \<Rightarrow> objectProto rt k)"

fun truthy :: "'n env \<Rightarrow> 'n jsval \<Rightarrow> bool" where
  "truthy rt Undefined = False"
| "truthy rt Null = False"
| "truthy rt (Bool b) = b"
| "truthy rt (Num n) = numTruthy rt n"
| "truthy rt (Str s) = (s \<noteq> [])"
| "truthy rt v = True"

fun join :: "jsstring \<Rightarrow> jsstring list \<Rightarrow> jsstring" where
  "join sep [] = []"
| "join sep [x] = x"
| "join sep (x # y # ys) = x @ sep @ join sep (y # ys)"

text \<open>
  \<open>ToString\<close>, as a template literal and \<open>String.prototype.replace\<close> apply it. Objects
  are plain: none overrides \<open>toString\<close>. \<open>Array.prototype.join\<close> renders \<open>null\<close> and
  \<open>undefined\<close> elements as the empty string.
\<close>

fun toStr :: "'n env \<Rightarrow> 'n jsval \<Rightarrow> jsstring" where
  "toStr rt Undefined = js ''undefined''"
| "toStr rt Null = js ''null''"
| "toStr rt (Bool b) = (if b then js ''true'' else js ''false'')"
| "toStr rt (Num n) = numText rt n"
| "toStr rt (Str s) = s"
| "toStr rt (Arr xs) =
     join (js '','')
       (map (\<lambda>x. if x = Undefined \<or> x = Null then [] else toStr rt x) xs)"
| "toStr rt (Obj ps) = js ''[object Object]''"
| "toStr rt (Serializable r) = js ''[object Object]''"
| "toStr rt (Fun f) = funText rt f"

definition join_vals :: "'n env \<Rightarrow> jsstring \<Rightarrow> 'n jsval list \<Rightarrow> jsstring" where
  "join_vals rt sep xs =
     join sep (map (\<lambda>x. if x = Undefined \<or> x = Null then [] else toStr rt x) xs)"

section \<open>Safe Serializer\<close>

definition UNICODE_CHARS :: "(code_unit \<times> jsstring) list" where
  "UNICODE_CHARS =
    [(dquote, [backslash, dquote]),
     (0x0A, backslash # js ''n''),
     (0x0D, backslash # js ''r''),
     (0x09, backslash # js ''t''),
     (0x3C, backslash # js ''u003C''),
     (0x3E, backslash # js ''u003E''),
     (0x2F, backslash # js ''u002F''),
     (0x2028, backslash # js ''u2028''),
     (0x2029, backslash # js ''u2029'')]"

text \<open>The character class of the pattern of \<open>safeString\<close>: CR, LF, TAB, \<open><\<close>, \<open>>\<close>, U+2028, U+2029, the double quote and the slash.\<close>

definition unsafe_class :: "code_unit list" where
  "unsafe_class = [0x0D, 0x0A, 0x09, 0x3C, 0x3E, 0x2028, 0x2029, dquote, 0x2F]"

text \<open>
  \<open>str.replace(pattern, fn)\<close> with a pattern that has no \<open>g\<close> flag and matches one code
  unit of a class: the leftmost match is replaced by \<open>fn\<close> of it, the rest of the string
  is copied.
\<close>

fun replace_first :: "(code_unit \<Rightarrow> bool) \<Rightarrow> (code_unit \<Rightarrow> jsstring) \<Rightarrow> jsstring \<Rightarrow> jsstring" where
  "replace_first m f [] = []"
| "replace_first m f (c # cs) = (if m c then f c @ cs else c # replace_first m f cs)"

definition safeString :: "jsstring \<Rightarrow> jsstring" where
  "safeString str =
     replace_first (\<lambda>c. c \<in> set unsafe_class)
       (\<lambda>unsafeChar. case own UNICODE_CHARS unsafeChar of
            Some e \<Rightarrow> e
          | None \<Rightarrow> js ''undefined'')
       str"

fun serialize :: "'n env \<Rightarrow> 'n jsval \<Rightarrow> jsstring" where
  "serialize rt (Serializable render) = render"
| "serialize rt Null = js ''null''"
| "serialize rt (Arr source) =
     js ''['' @ join (js '','') (map (\<lambda>item. serialize rt item) source) @ js '']''"
| "serialize rt (Obj source) =
     js ''{'' @
     join (js '','')
       (map (\<lambda>(key, v). [dquote] @ safeString key @ [dquote] @ js '': '' @ serialize rt v)
          source) @
     js ''}''"
| "serialize rt (Str source) = [dquote] @ safeString source @ [dquote]"
| "serialize rt source = toStr rt source"

section \<open>Preset Normalizer\<close>

definition normalizeProperty :: "'n env \<Rightarrow> jsstring \<Rightarrow> 'n jsval \<Rightarrow> 'n jsval" where
  "normalizeProperty rt key v =
     (if key = js ''density'' \<or> key = js ''blur'' \<or> key = js ''width'' \<or> key = js ''height''
      then Num (toNumber rt v)
      else v)"

text \<open>
  A function-valued option is called with the context arguments and its result is
  normalized again; a function that keeps returning functions never returns, which is
  the value \<open>None\<close>.
\<close>

partial_function (option) normalize_entry ::
  "'n env \<Rightarrow> 'n jsval list \<Rightarrow> jsstring \<Rightarrow> 'n jsval \<Rightarrow> 'n jsval list option" where
  "normalize_entry rt args key val =
     (case val of
        Fun f \<Rightarrow> normalize_entry rt args key (call rt f args)
      | Arr vs \<Rightarrow> Some (map (normalizeProperty rt key) vs)
      | _ \<Rightarrow> Some [normalizeProperty rt key val])"

type_synonym 'n optionset = "(jsstring \<times> 'n jsval list) list"

fun normalize_keys ::
  "'n env \<Rightarrow> 'n jsval list \<Rightarrow> 'n obj \<Rightarrow> jsstring list \<Rightarrow> 'n optionset \<Rightarrow> 'n optionset option" where
  "normalize_keys rt args options [] result = Some result"
| "normalize_keys rt args options (key # keys) result =
     (case normalize_entry rt args key (get_prop options key) of
        None \<Rightarrow> None
      | Some vs \<Rightarrow> normalize_keys rt args options keys (obj_set key vs result))"

definition normalizePreset :: "'n env \<Rightarrow> 'n obj \<Rightarrow> 'n jsval list \<Rightarrow> 'n optionset option" where
  "normalizePreset rt options args = normalize_keys rt args options (map fst options) []"

section \<open>Combination Expander\<close>

text \<open>
  Modelled from the spec: the function \<open>product\<close> of the package cartesian-product,
  which \<open>multiplex\<close> imports and the sources do not contain. Section 4.3: the outer loop
  runs over the values of the first key, the nested loops over those of the later keys
  in declaration order; no key gives the one empty combination.
\<close>

fun cartesian_product :: "'a list list \<Rightarrow> 'a list list" where
  "cartesian_product [] = [[]]"
| "cartesian_product (xs # xss) =
     concat (map (\<lambda>x. map (\<lambda>entries. x # entries) (cartesian_product xss)) xs)"

text \<open>\<open>entries[i]\<close>: \<open>undefined\<close> beyond the end of the array.\<close>

definition entry_at :: "'n jsval list \<Rightarrow> nat \<Rightarrow> 'n jsval" where
  "entry_at entries i = (if i < length entries then entries ! i else Undefined)"

definition multiplex :: "'n optionset \<Rightarrow> 'n obj list" where
  "multiplex options =
     (let keys = map fst options;
          values = cartesian_product
            (map (\<lambda>key. case own options key of Some vs \<Rightarrow> vs | None \<Rightarrow> []) keys)
      in map (\<lambda>entries.
           fold (\<lambda>(key, i) result. obj_set key (entry_at entries i) result)
             (zip keys [0..<length keys]) [])
         values)"

section \<open>Transformation Pipeline\<close>

text \<open>
  Modelled from the spec: the image handles of the transformation engine (sharp), which
  the sources do not contain. Section 6: a cloneable transform handle supporting ordered
  operation application. A handle is an address in a store; the state at an address is
  the sequence of operations requested on that handle so far. An operation is recorded
  on the handle it is called on and returns that handle; \<open>clone\<close> returns a new handle
  that starts with the operations of the one it copies.
\<close>

type_synonym 'n pipeline = "(jsstring \<times> 'n jsval list) list"
type_synonym 'n store = "'n pipeline list"

definition clone :: "'n store \<Rightarrow> nat \<Rightarrow> 'n store \<times> nat" where
  "clone st img = (st @ [st ! img], length st)"

definition invoke :: "jsstring \<Rightarrow> 'n jsval list \<Rightarrow> 'n store \<Rightarrow> nat \<Rightarrow> 'n store \<times> nat" where
  "invoke key args st img = (st[img := st ! img @ [(key, args)]], img)"

definition operation_keys :: "jsstring list" where
  "operation_keys =
     [js ''blur'', js ''resize'', js ''max'', js ''min'', js ''crop'', js ''toFormat'']"

text \<open>\<open>Array.isArray(value) ? value : [value]\<close>\<close>

definition arguments :: "'n jsval \<Rightarrow> 'n jsval list" where
  "arguments v = (case v of Arr xs \<Rightarrow> xs | _ \<Rightarrow> [v])"

definition transform_step :: "'n obj \<Rightarrow> jsstring \<Rightarrow> 'n store \<times> nat \<Rightarrow> 'n store \<times> nat" where
  "transform_step options key acc =
     (case acc of (st, img) \<Rightarrow>
        if key \<in> set (map fst options)
        then invoke key (arguments (get_prop options key)) st img
        else (st, img))"

definition transform :: "'n store \<Rightarrow> nat \<Rightarrow> 'n obj \<Rightarrow> 'n store \<times> nat" where
  "transform st img options = fold (transform_step options) operation_keys (clone st img)"

text \<open>The operations a spec requests, among the given keys and in their order.\<close>

definition requested :: "'n obj \<Rightarrow> jsstring list \<Rightarrow> 'n pipeline" where
  "requested options ks =
     map (\<lambda>key. (key, arguments (get_prop options key)))
       (filter (\<lambda>key. key \<in> set (map fst options)) ks)"

definition extension :: "'n env \<Rightarrow> 'n jsval \<Rightarrow> 'n jsval" where
  "extension rt type =
     get_member rt
       [(js ''webp'', Str (js ''.webp'')),
        (js ''jpeg'', Str (js ''.jpg'')),
        (js ''png'', Str (js ''.png''))]
       (toStr rt type)"

text \<open>
  \<open>base\<close> is the normalized, un-expanded declaration: every key holds an array.
  Spreading \<open>base.density\<close> when the key is missing raises a TypeError.
\<close>

definition density_resize :: "'n env \<Rightarrow> 'n obj \<Rightarrow> 'n obj \<Rightarrow> 'n jsval list \<Rightarrow> 'n jsval" where
  "density_resize rt options meta declared =
     (let intrinsic = mathMax rt (map (toNumber rt) declared);
          density = toNumber rt (get_prop options (js ''density''))
      in Arr [Num (times rt (toNumber rt (get_prop meta (js ''width'')))
                     (divide_num rt density intrinsic)),
              Num (times rt (toNumber rt (get_prop meta (js ''height'')))
                     (divide_num rt density intrinsic))])"

definition fit_mode :: "'n env \<Rightarrow> 'n obj \<Rightarrow> 'n obj \<Rightarrow> 'n obj" where
  "fit_mode rt options result =
     (if get_prop options (js ''mode'') = Str (js ''cover'')
      then obj_set (js ''min'') (Bool True) result
      else if get_prop options (js ''mode'') = Str (js ''contain'')
      then obj_set (js ''max'') (Bool True) result
      else obj_set (js ''crop'') (gravityCenter rt) result)"

text \<open>The property the \<open>switch\<close> on \<open>options.mode\<close> assigns.\<close>

definition fit_pair :: "'n env \<Rightarrow> 'n obj \<Rightarrow> jsstring \<times> 'n jsval" where
  "fit_pair rt options =
     (if get_prop options (js ''mode'') = Str (js ''cover'') then (js ''min'', Bool True)
      else if get_prop options (js ''mode'') = Str (js ''contain'') then (js ''max'', Bool True)
      else (js ''crop'', gravityCenter rt))"

definition normalizeSharpOptions ::
  "'n env \<Rightarrow> 'n obj \<Rightarrow> 'n obj \<Rightarrow> 'n optionset \<Rightarrow> error + 'n obj" where
  "normalizeSharpOptions rt options meta base =
     (let result = [];
          result = (if truthy rt (get_prop options (js ''format''))
                    then obj_set (js ''toFormat'') (get_prop options (js ''format'')) result
                    else result);
          result = (if truthy rt (get_prop options (js ''width'')) \<or>
                       truthy rt (get_prop options (js ''height''))
                    then obj_set (js ''resize'')
                           (Arr [get_prop options (js ''width''),
                                 get_prop options (js ''height'')]) result
                    else result);
          sized = (if truthy rt (get_prop options (js ''density''))
                   then (case own base (js ''density'') of
                           None \<Rightarrow> Inl TypeError
                         | Some declared \<Rightarrow>
                             Inr (obj_set (js ''resize'')
                                    (density_resize rt options meta declared) result))
                   else Inr result)
      in case sized of
           Inl e \<Rightarrow> Inl e
         | Inr result \<Rightarrow>
             Inr (obj_set (js ''inline'') (Bool (truthy rt (get_prop options (js ''inline''))))
                    (fit_mode rt options result)))"

section \<open>Asset Naming and Emission\<close>

definition lbracket :: code_unit where
  "lbracket = 0x5B"

definition rbracket :: code_unit where
  "rbracket = 0x5D"

definition dot :: code_unit where
  "dot = 0x2E"

text \<open>
  \<open>str.replace(/\[([^\]]+)\]/g, fn)\<close>: every match, left to right and not overlapping, is
  replaced by \<open>fn\<close> of the match and of its group. At an opening bracket the group is the
  longest run of code units other than the closing bracket; the pattern matches there
  when the run is not empty and a closing bracket follows it.
\<close>

function replace_tokens :: "(jsstring \<Rightarrow> jsstring \<Rightarrow> jsstring) \<Rightarrow> jsstring \<Rightarrow> jsstring" where
  "replace_tokens f [] = []"
| "replace_tokens f (c # cs) =
     (if c = lbracket \<and> takeWhile (\<lambda>d. d \<noteq> rbracket) cs \<noteq> [] \<and>
         dropWhile (\<lambda>d. d \<noteq> rbracket) cs \<noteq> []
      then f (c # takeWhile (\<lambda>d. d \<noteq> rbracket) cs @ [rbracket])
             (takeWhile (\<lambda>d. d \<noteq> rbracket) cs) @
           replace_tokens f (tl (dropWhile (\<lambda>d. d \<noteq> rbracket) cs))
      else c # replace_tokens f cs)"
  by pat_completeness auto

termination
proof (relation "measure (\<lambda>(f, s). length s)")
  fix f :: "jsstring \<Rightarrow> jsstring \<Rightarrow> jsstring" and c :: code_unit and cs :: jsstring
  assume "c = lbracket \<and> takeWhile (\<lambda>d. d \<noteq> rbracket) cs \<noteq> [] \<and>
    dropWhile (\<lambda>d. d \<noteq> rbracket) cs \<noteq> []"
  then have "length (tl (dropWhile (\<lambda>d. d \<noteq> rbracket) cs)) <
      length (dropWhile (\<lambda>d. d \<noteq> rbracket) cs)"
    by simp
  moreover have "length (dropWhile (\<lambda>d. d \<noteq> rbracket) cs) \<le> length cs"
    by (rule length_dropWhile_le)
  ultimately show "((f, tl (dropWhile (\<lambda>d. d \<noteq> rbracket) cs)), (f, c # cs))
      \<in> measure (\<lambda>(f, s). length s)"
    by simp
qed simp_all

text \<open>
  \<open>path.replace(/\.[^.]+$/, text)\<close>: the pattern matches from the last dot to the end of
  the path when at least one code unit follows that dot.
\<close>

definition replace_ext :: "jsstring \<Rightarrow> jsstring \<Rightarrow> jsstring" where
  "replace_ext path text =
     (let after = takeWhile (\<lambda>d. d \<noteq> dot) (rev path)
      in if after \<noteq> [] \<and> length after < length path
         then take (length path - length after - 1) path @ text
         else path)"

record 'n loader =
  resourcePath :: jsstring
  loader_options :: "'n obj"

text \<open>The callback of the template replacement in \<open>name\<close>.\<close>

definition resolve_token :: "'n env \<Rightarrow> 'n obj \<Rightarrow> 'n obj \<Rightarrow> jsstring \<Rightarrow> jsstring \<Rightarrow> jsstring" where
  "resolve_token rt info params str nm =
     (if nm = js ''name'' \<or> nm = js ''hash'' then str
      else if truthy rt (get_member rt params nm) then toStr rt (get_member rt params nm)
      else if truthy rt (get_member rt info nm) then toStr rt (get_member rt info nm)
      else str)"

text \<open>The resource path handed to \<open>interpolateName\<close>.\<close>

definition interpolation_path :: "'n env \<Rightarrow> 'n loader \<Rightarrow> 'n obj \<Rightarrow> jsstring" where
  "interpolation_path rt loader info =
     replace_ext (resourcePath loader)
       (toStr rt (extension rt (get_prop info (js ''format''))))"

text \<open>
  \<open>name\<close> and \<open>data\<close> are local to \<open>emit\<close>; \<open>input\<close>, \<open>options\<close> and \<open>loader\<close> are the
  variables they close over. A template that is not a string has no \<open>replace\<close>.
  \<open>files\<close> is the host's file-emission sink.
\<close>

definition emit_name ::
  "'n env \<Rightarrow> bytes \<Rightarrow> 'n obj \<Rightarrow> 'n loader \<Rightarrow> 'n obj \<Rightarrow> 'n obj \<Rightarrow> error + jsstring" where
  "emit_name rt input options loader info params =
     (let chosen =
            (if truthy rt (get_prop params (js ''name'')) then get_prop params (js ''name'')
             else if truthy rt (get_prop options (js ''name'')) then get_prop options (js ''name'')
             else Str (js ''[name].[ext]''))
      in case chosen of
           Str t \<Rightarrow>
             Inr (interpolateName rt
                    (interpolation_path rt loader info)
                    (Obj (loader_options loader))
                    (replace_tokens (resolve_token rt info params) t)
                    (if truthy rt (get_prop options (js ''context''))
                     then get_prop options (js ''context'')
                     else get_prop (loader_options loader) (js ''context''))
                    input)
         | _ \<Rightarrow> Inl TypeError)"

text \<open>An object literal: the properties are assigned in the order they are written.\<close>

definition assign_all :: "('k \<times> 'v) list \<Rightarrow> ('k \<times> 'v) list \<Rightarrow> ('k \<times> 'v) list" where
  "assign_all ps result = fold (\<lambda>(k, v) r. obj_set k v r) ps result"

definition asset_url :: "'n env \<Rightarrow> 'n obj \<Rightarrow> 'n jsval \<Rightarrow> jsstring \<Rightarrow> bytes \<Rightarrow> 'n jsval" where
  "asset_url rt options type n img =
     (if truthy rt (get_prop options (js ''inline''))
      then Str (join_vals rt []
                  [Str (js ''data:''), type, Str (js '';base64,''), Str (toBase64 rt img)])
      else Serializable (js ''__webpack_public_path__ + '' @ serialize rt (Str n)))"

text \<open>The content type as \<open>join\<close> renders it: nothing for \<open>null\<close> and \<open>undefined\<close>.\<close>

definition content_type_text :: "'n env \<Rightarrow> 'n jsval \<Rightarrow> jsstring" where
  "content_type_text rt t = (if t = Undefined \<or> t = Null then [] else toStr rt t)"

type_synonym files = "(jsstring \<times> bytes) list"

definition emit_data ::
  "'n env \<Rightarrow> bytes \<Rightarrow> 'n obj \<Rightarrow> 'n loader \<Rightarrow> files \<Rightarrow>
   bytes \<Rightarrow> 'n obj \<Rightarrow> 'n obj \<Rightarrow> 'n jsval \<Rightarrow> error + 'n obj \<times> files" where
  "emit_data rt input global loader files img info options preset =
     (case emit_name rt input global loader info options of
        Inl e \<Rightarrow> Inl e
      | Inr n \<Rightarrow>
          (let type = getType rt n;
               result = assign_all
                 (options @ info @
                  [(js ''type'', type),
                   (js ''preset'', preset),
                   (js ''name'', Str n),
                   (js ''url'', asset_url rt options type n img)]) []
           in Inr (result,
                   if \<not> truthy rt (get_prop options (js ''inline''))
                   then files @ [(n, img)]
                   else files)))"

record 'n image_ref =
  addr :: nat
  image_meta :: "'n obj"

text \<open>
  The function \<open>emit\<close> returns. The outer error is an exception; the inner sum is the
  promise: rejected with the encoder's error, or resolved with the asset.
\<close>

definition emit ::
  "'n env \<Rightarrow> bytes \<Rightarrow> 'n obj \<Rightarrow> 'n loader \<Rightarrow> 'n store \<Rightarrow> files \<Rightarrow>
   'n jsval \<Rightarrow> 'n obj \<Rightarrow> 'n image_ref \<Rightarrow> 'n optionset \<Rightarrow>
   error + ('n jsval + 'n obj) \<times> 'n store \<times> files" where
  "emit rt input global loader st files preset presetOptions img base =
     (case normalizeSharpOptions rt presetOptions (image_meta img) base of
        Inl e \<Rightarrow> Inl e
      | Inr spec \<Rightarrow>
          (case transform st (addr img) spec of
             (st', transformedImage) \<Rightarrow>
               (case toBuffer rt (st' ! transformedImage) of
                  Inl err \<Rightarrow> Inr (Inl err, st', files)
                | Inr (buffer, info) \<Rightarrow>
                    (case emit_data rt input global loader files buffer info presetOptions preset of
                       Inl e \<Rightarrow> Inl e
                     | Inr (asset, files') \<Rightarrow> Inr (Inr asset, st', files')))))"

section \<open>Orchestrator\<close>

fun decimal :: "nat \<Rightarrow> jsstring" where
  "decimal n =
     (if n < 10 then [word_of_nat (48 + n)]
      else decimal (n div 10) @ [word_of_nat (48 + n mod 10)])"

text \<open>The own enumerable properties an object spread copies.\<close>

definition spread :: "'n jsval \<Rightarrow> 'n obj" where
  "spread v =
     (case v of
        Obj ps \<Rightarrow> ps
      | Arr xs \<Rightarrow> zip (map decimal [0..<length xs]) xs
      | Str s \<Rightarrow> zip (map decimal [0..<length s]) (map (\<lambda>c. Str [c]) s)
      | _ \<Rightarrow> [])"

text \<open>
  \<open>handle\<close> returns an array of promises: one rejected with a message (\<open>Inl\<close>), or one
  per combination, each the result of calling \<open>emit\<close>. \<open>None\<close>: the normalization of
  the preset does not return.
\<close>

definition handle ::
  "'n env \<Rightarrow> 'n image_ref \<Rightarrow> 'n jsval \<Rightarrow> 'n jsval \<Rightarrow> 'n obj \<Rightarrow>
   ('n jsval \<Rightarrow> 'n obj \<Rightarrow> 'n image_ref \<Rightarrow> 'n optionset \<Rightarrow> 'p) \<Rightarrow>
   ('n jsval + 'p) list option" where
  "handle rt img preset nm presets emit_fn =
     (case normalizePreset rt
             (obj_set (js ''preset'') preset (spread (get_member rt presets (toStr rt nm))))
             [Obj (image_meta img)] of
        None \<Rightarrow> None
      | Some base \<Rightarrow>
          Some (if truthy rt nm \<and> \<not> truthy rt (get_member rt presets (toStr rt nm))
                then [Inl (Str (js ''No such preset: '' @ toStr rt preset))]
                else map (\<lambda>options. Inr (emit_fn nm options img base)) (multiplex base)))"

section \<open>A sample environment\<close>

text \<open>
  One environment, for evaluating the definitions on concrete inputs. Numbers are exact
  rationals and \<open>None\<close> is NaN; the infinities are not represented, so a division by
  zero and the maximum of no numbers come out as NaN, and only integers are rendered.
  \<open>toNumber\<close> follows JavaScript on numbers, booleans, \<open>null\<close> and \<open>undefined\<close> and gives
  NaN elsewhere. \<open>interpolateName\<close> resolves the tokens \<open>[name]\<close> and \<open>[ext]\<close> from the
  resource path (the extension is \<open>bin\<close> when the path has none) and leaves every other
  token. There is no encoder: \<open>toBuffer\<close> fails.
\<close>

type_synonym number = "rat option"

definition sample_toNumber :: "number jsval \<Rightarrow> number" where
  "sample_toNumber v =
     (case v of
        Num n \<Rightarrow> n
      | Bool b \<Rightarrow> Some (if b then 1 else 0)
      | Null \<Rightarrow> Some 0
      | _ \<Rightarrow> None)"

definition sample_numText :: "number \<Rightarrow> jsstring" where
  "sample_numText n =
     (case n of
        None \<Rightarrow> js ''NaN''
      | Some q \<Rightarrow>
          if q = of_int \<lfloor>q\<rfloor>
          then (if q < 0 then js ''-'' else []) @ decimal (nat \<bar>\<lfloor>q\<rfloor>\<bar>)
          else [])"

definition sample_times :: "number \<Rightarrow> number \<Rightarrow> number" where
  "sample_times a b =
     (case (a, b) of (Some x, Some y) \<Rightarrow> Some (x * y) | _ \<Rightarrow> None)"

definition sample_divide :: "number \<Rightarrow> number \<Rightarrow> number" where
  "sample_divide a b =
     (case (a, b) of
        (Some x, Some y) \<Rightarrow> if y = 0 then None else Some (x / y)
      | _ \<Rightarrow> None)"

fun sample_max :: "number list \<Rightarrow> number" where
  "sample_max [] = None"
| "sample_max [n] = n"
| "sample_max (n # m # ms) =
     (case (n, sample_max (m # ms)) of (Some x, Some y) \<Rightarrow> Some (max x y) | _ \<Rightarrow> None)"

definition inherited_names :: "jsstring list" where
  "inherited_names =
     map js [''constructor'', ''hasOwnProperty'', ''isPrototypeOf'', ''propertyIsEnumerable'',
       ''toLocaleString'', ''toString'', ''valueOf'', ''__proto__'']"

definition after_last :: "code_unit \<Rightarrow> jsstring \<Rightarrow> jsstring" where
  "after_last c s = rev (takeWhile (\<lambda>d. d \<noteq> c) (rev s))"

definition sample_getType :: "jsstring \<Rightarrow> number jsval" where
  "sample_getType n =
     (if after_last dot n = js ''webp'' then Str (js ''image/webp'')
      else if after_last dot n = js ''jpg'' then Str (js ''image/jpeg'')
      else if after_last dot n = js ''png'' then Str (js ''image/png'')
      else Null)"

definition base64_digit :: "nat \<Rightarrow> code_unit" where
  "base64_digit i =
     (if i < 26 then word_of_nat (65 + i)
      else if i < 52 then word_of_nat (97 + (i - 26))
      else if i < 62 then word_of_nat (48 + (i - 52))
      else if i = 62 then 0x2B
      else 0x2F)"

fun base64 :: "nat list \<Rightarrow> jsstring" where
  "base64 (a # b # c # rest) =
     map base64_digit [a div 4, (a mod 4) * 16 + b div 16, (b mod 16) * 4 + c div 64, c mod 64]
     @ base64 rest"
| "base64 [a, b] =
     map base64_digit [a div 4, (a mod 4) * 16 + b div 16, (b mod 16) * 4] @ js ''=''"
| "base64 [a] = map base64_digit [a div 4, (a mod 4) * 16] @ js ''==''"
| "base64 [] = []"

definition sample_interpolateName ::
  "jsstring \<Rightarrow> number jsval \<Rightarrow> jsstring \<Rightarrow> number jsval \<Rightarrow> bytes \<Rightarrow> jsstring" where
  "sample_interpolateName path opts template ctx content =
     (let base = after_last 0x2F path;
          ext = (if dot \<in> set base then after_last dot base else js ''bin'');
          stem = (if dot \<in> set base then take (length base - length (after_last dot base) - 1) base
                  else base)
      in replace_tokens
           (\<lambda>str nm. if nm = js ''name'' then stem else if nm = js ''ext'' then ext else str)
           template)"

definition sample_env :: "number env" where
  "sample_env =
     \<lparr> toNumber = sample_toNumber,
       numText = sample_numText,
       numTruthy = (\<lambda>n. n \<noteq> None \<and> n \<noteq> Some 0),
       times = sample_times,
       divide_num = sample_divide,
       mathMax = sample_max,
       call = (\<lambda>f args. Undefined),
       funText = (\<lambda>f. js ''function () { [native code] }''),
       objectProto = (\<lambda>k. if k \<in> set inherited_names then Fun 0 else Undefined),
       gravityCenter = Num (Some 0),
       getType = sample_getType,
       toBase64 = (\<lambda>b. base64 (map unat b)),
       interpolateName = sample_interpolateName,
       toBuffer = (\<lambda>ops. Inl (Str (js ''no encoder''))) \<rparr>"

section \<open>Escaping in the Safe Serializer\<close>

text \<open>
  C1. A string rendered by the serializer should have every occurrence of an unsafe
  character replaced by its escape sequence. The pattern of \<open>safeString\<close> has no global
  flag: on the string of two \<open><\<close> the first is escaped and the second is copied as it
  is, so the output still contains the character.
\<close>

theorem safeString_escapes_first_match_only:
  "safeString (js ''<<'') = backslash # js ''u003C<'' \<and>
   (0x3C :: code_unit) \<in> set (safeString (js ''<<''))"
  by (simp add: safeString_def js_def unsafe_class_def own_def UNICODE_CHARS_def
      dquote_def backslash_def)

section \<open>Properties of objects and strings\<close>

lemma own_obj_set: "own (obj_set k v ps) k' = (if k' = k then Some v else own ps k')"
  by (induction ps) (auto simp: own_def)

lemma obj_set_fresh: "k \<notin> fst ` set ps \<Longrightarrow> obj_set k v ps = ps @ [(k, v)]"
  by (induction ps) auto

lemma keys_obj_set:
  "map fst (obj_set k v ps) = (if k \<in> fst ` set ps then map fst ps else map fst ps @ [k])"
  by (induction ps) auto

lemma cartesian_product_product_lists: "cartesian_product xss = product_lists xss"
  by (induction xss) simp_all

lemma own_keys_values:
  "distinct (map fst ps) \<Longrightarrow>
   map (\<lambda>key. case own ps key of Some vs \<Rightarrow> vs | None \<Rightarrow> []) (map fst ps) = map snd ps"
  by (induction ps) (auto simp: own_def rev_image_eqI)

lemma assign_entries:
  "distinct ks \<Longrightarrow> set ks \<inter> fst ` set acc = {} \<Longrightarrow> length es = m + length ks \<Longrightarrow>
   fold (\<lambda>(key, i) result. obj_set key (entry_at es i) result)
     (zip ks [m..<m + length ks]) acc = acc @ zip ks (drop m es)"
proof (induction ks arbitrary: m acc)
  case Nil
  then show ?case by simp
next
  case (Cons k ks)
  have fresh: "k \<notin> fst ` set acc" using Cons.prems(2) by auto
  have upt: "zip (k # ks) [m..<m + length (k # ks)] = (k, m) # zip ks [Suc m..<Suc m + length ks]"
    by (subst upt_rec) simp
  have m: "m < length es" using Cons.prems(3) by simp
  have step: "obj_set k (entry_at es m) acc = acc @ [(k, es ! m)]"
    using fresh m by (simp add: obj_set_fresh entry_at_def)
  have "fold (\<lambda>(key, i) result. obj_set key (entry_at es i) result)
     (zip ks [Suc m..<Suc m + length ks]) (acc @ [(k, es ! m)])
     = (acc @ [(k, es ! m)]) @ zip ks (drop (Suc m) es)"
    using Cons.prems by (intro Cons.IH) auto
  then have "fold (\<lambda>(key, i) result. obj_set key (entry_at es i) result)
     (zip (k # ks) [m..<m + length (k # ks)]) acc = acc @ (k, es ! m) # zip ks (drop (Suc m) es)"
    unfolding upt by (simp add: step)
  moreover have "drop m es = es ! m # drop (Suc m) es"
    using m by (simp add: Cons_nth_drop_Suc)
  ultimately show ?case
    by (simp only: zip_Cons_Cons)
qed

lemma multiplex_zip:
  assumes "distinct (map fst options)"
  shows "multiplex options =
     map (\<lambda>entries. zip (map fst options) entries) (cartesian_product (map snd options))"
proof -
  have "fold (\<lambda>(key, i) result. obj_set key (entry_at es i) result)
       (zip (map fst options) [0..<length (map fst options)]) [] = zip (map fst options) es"
    if "es \<in> set (cartesian_product (map snd options))" for es
  proof -
    have "length es = length options"
      using that in_set_product_lists_length [of es "map snd options"]
      by (simp add: cartesian_product_product_lists)
    then show ?thesis
      using assign_entries [of "map fst options" "[]" es 0] assms by simp
  qed
  moreover have "map (\<lambda>key. case own options key of Some vs \<Rightarrow> vs | None \<Rightarrow> []) (map fst options)
      = map snd options"
    using assms by (rule own_keys_values)
  ultimately show ?thesis
    unfolding multiplex_def Let_def by (simp only: length_map cong: map_cong)
qed

lemma js_unit_inj: "(word_of_nat (of_char c) :: code_unit) = word_of_nat (of_char d) \<longleftrightarrow> c = d"
proof
  assume "(word_of_nat (of_char c) :: code_unit) = word_of_nat (of_char d)"
  then have "unat (word_of_nat (of_char c) :: code_unit) = unat (word_of_nat (of_char d) :: code_unit)"
    by simp
  moreover have "(of_char e :: nat) < 2 ^ 16" for e
    by (rule less_trans [OF nat_of_char_less_256]) simp
  ultimately show "c = d"
    by (simp add: unat_of_nat)
qed simp

lemma js_eq_iff: "js s = js t \<longleftrightarrow> s = t"
  unfolding js_def by (auto simp: inj_on_def js_unit_inj intro!: inj_on_mapI dest: map_inj_on)


lemma length_cartesian:
  "length (cartesian_product (map snd options)) = prod_list (map (\<lambda>(key, vs). length vs) options)"
  by (induction options) (auto simp: length_concat comp_def sum_list_triv)

lemma zip_keys_inj:
  "length es = length ks \<Longrightarrow> length es' = length ks \<Longrightarrow> zip ks es = zip ks es' \<Longrightarrow> es = es'"
  by (metis map_snd_zip)

section \<open>The Combination Expander enumerates the cartesian product\<close>

text \<open>
  C2, as stated, asks for pairwise distinct combinations for every option set. A key
  whose sequence repeats a value gives the same combination twice: \<open>multiplex\<close> selects
  by position and removes nothing.
\<close>

theorem multiplex_repeated_value_counterexample:
  "multiplex [(js ''format'', [Str (js ''webp''), Str (js ''webp'') :: number jsval])] =
     [[(js ''format'', Str (js ''webp''))], [(js ''format'', Str (js ''webp''))]] \<and>
   \<not> distinct (multiplex [(js ''format'', [Str (js ''webp''), Str (js ''webp'') :: number jsval])])"
  by (simp add: multiplex_def own_def entry_at_def)

text \<open>
  C2, amended. For an option set (an object: every key occurs once) with sequences of
  lengths \<open>n1, ..., nk\<close>, \<open>multiplex\<close> returns the product of the \<open>ni\<close> many combinations;
  they are exactly the mappings that have the keys of the option set, in its order, and
  give every key one value of its sequence, none left out; they are pairwise distinct
  when no sequence repeats a value; the order is that of nested loops, the first key
  outermost, and the empty option set gives the one empty mapping.
\<close>

theorem multiplex_enumerates_cartesian_product:
  assumes "distinct (map fst options)"
  shows "length (multiplex options) = prod_list (map (\<lambda>(key, vs). length vs) options) \<and>
    set (multiplex options) =
      {c. map fst c = map fst options \<and>
          list_all2 (\<lambda>v vs. v \<in> set vs) (map snd c) (map snd options)} \<and>
    ((\<forall>vs \<in> set (map snd options). distinct vs) \<longrightarrow> distinct (multiplex options)) \<and>
    multiplex options =
      (case options of
         [] \<Rightarrow> [[]]
       | (key, vs) # rest \<Rightarrow> concat (map (\<lambda>v. map (\<lambda>c. (key, v) # c) (multiplex rest)) vs))"
proof (intro conjI)
  note mz = multiplex_zip [OF assms]
  show "length (multiplex options) = prod_list (map (\<lambda>(key, vs). length vs) options)"
    by (simp add: mz length_cartesian)
  show "set (multiplex options) =
      {c. map fst c = map fst options \<and>
          list_all2 (\<lambda>v vs. v \<in> set vs) (map snd c) (map snd options)}"
  proof (intro equalityI subsetI)
    fix c assume "c \<in> set (multiplex options)"
    then obtain es where es: "es \<in> set (product_lists (map snd options))" and c: "c = zip (map fst options) es"
      by (auto simp: mz cartesian_product_product_lists)
    have len: "length es = length options"
      using in_set_product_lists_length [OF es] by simp
    have "list_all2 (\<lambda>v vs. v \<in> set vs) es (map snd options)"
      using es by (simp add: product_lists_set)
    then show "c \<in> {c. map fst c = map fst options \<and>
          list_all2 (\<lambda>v vs. v \<in> set vs) (map snd c) (map snd options)}"
      using len by (simp add: c)
  next
    fix c assume "c \<in> {c. map fst c = map fst options \<and>
          list_all2 (\<lambda>v vs. v \<in> set vs) (map snd c) (map snd options)}"
    then have k: "map fst c = map fst options"
      and v: "list_all2 (\<lambda>v vs. v \<in> set vs) (map snd c) (map snd options)"
      by simp_all
    have "map snd c \<in> set (product_lists (map snd options))"
      using v by (simp add: product_lists_set)
    moreover have "c = zip (map fst options) (map snd c)"
      using k by (metis zip_map_fst_snd)
    ultimately show "c \<in> set (multiplex options)"
      by (auto simp: mz cartesian_product_product_lists)
  qed
  show "(\<forall>vs \<in> set (map snd options). distinct vs) \<longrightarrow> distinct (multiplex options)"
  proof
    assume d: "\<forall>vs \<in> set (map snd options). distinct vs"
    have "distinct (product_lists (map snd options))"
      using d by (rule distinct_product_lists)
    moreover have "inj_on (zip (map fst options)) (set (product_lists (map snd options)))"
    proof (rule inj_onI)
      fix es es'
      assume "es \<in> set (product_lists (map snd options))" "es' \<in> set (product_lists (map snd options))"
        and "zip (map fst options) es = zip (map fst options) es'"
      then show "es = es'"
        using in_set_product_lists_length [of es "map snd options"]
          in_set_product_lists_length [of es' "map snd options"]
          zip_keys_inj [of es "map fst options" es']
        by simp
    qed
    ultimately show "distinct (multiplex options)"
      by (simp add: mz cartesian_product_product_lists distinct_map)
  qed
  show "multiplex options =
      (case options of
         [] \<Rightarrow> [[]]
       | (key, vs) # rest \<Rightarrow> concat (map (\<lambda>v. map (\<lambda>c. (key, v) # c) (multiplex rest)) vs))"
  proof (cases options)
    case Nil
    then show ?thesis by (simp add: multiplex_def)
  next
    case (Cons p rest)
    obtain key vs where p: "p = (key, vs)" by (cases p)
    have "distinct (map fst rest)" using assms Cons by simp
    then have "multiplex rest = map (zip (map fst rest)) (cartesian_product (map snd rest))"
      by (rule multiplex_zip)
    then show ?thesis
      using mz by (simp add: Cons p map_concat comp_def)
  qed
qed

theorem multiplex_enumerates_cartesian_product_witness:
  "distinct (map fst [(js ''format'', [Str (js ''webp''), Str (js ''jpeg'')]),
                      (js ''density'', [Num (Some 1), Num (Some 2) :: number jsval])]) \<and>
   length (multiplex [(js ''format'', [Str (js ''webp''), Str (js ''jpeg'')]),
                      (js ''density'', [Num (Some 1), Num (Some 2) :: number jsval])]) = 4 \<and>
   distinct (multiplex [(js ''format'', [Str (js ''webp''), Str (js ''jpeg'')]),
                      (js ''density'', [Num (Some 1), Num (Some 2) :: number jsval])]) \<and>
   multiplex [(js ''format'', [Str (js ''webp''), Str (js ''jpeg'')]),
              (js ''density'', [Num (Some 1), Num (Some 2) :: number jsval])] =
     [[(js ''format'', Str (js ''webp'')), (js ''density'', Num (Some 1))],
      [(js ''format'', Str (js ''webp'')), (js ''density'', Num (Some 2))],
      [(js ''format'', Str (js ''jpeg'')), (js ''density'', Num (Some 1))],
      [(js ''format'', Str (js ''jpeg'')), (js ''density'', Num (Some 2))]]"
  using multiplex_enumerates_cartesian_product
    [of "[(js ''format'', [Str (js ''webp''), Str (js ''jpeg'')]),
         (js ''density'', [Num (Some 1), Num (Some 2) :: number jsval])]"]
  by (simp add: js_eq_iff multiplex_def own_def entry_at_def)

section \<open>The transformation sequence\<close>

lemma transform_step_pair:
  "transform_step options k (st, h) =
     (if k \<in> set (map fst options)
      then (st[h := st ! h @ [(k, arguments (get_prop options k))]], h)
      else (st, h))"
  by (simp add: transform_step_def invoke_def)

lemma fold_transform_step:
  "h < length st \<Longrightarrow>
   fold (transform_step options) ks (st, h) = (st[h := st ! h @ requested options ks], h)"
proof (induction ks arbitrary: st)
  case Nil
  then show ?case by (simp add: requested_def)
next
  case (Cons k ks)
  show ?case
  proof (cases "k \<in> set (map fst options)")
    case True
    let ?st = "st[h := st ! h @ [(k, arguments (get_prop options k))]]"
    have "fold (transform_step options) ks (?st, h) = (?st[h := ?st ! h @ requested options ks], h)"
      using Cons.prems by (intro Cons.IH) simp
    then show ?thesis
      using True Cons.prems by (simp add: transform_step_pair requested_def)
  next
    case False
    then show ?thesis
      using Cons.IH [OF Cons.prems] by (simp add: transform_step_pair requested_def)
  qed
qed

lemma transform_result:
  assumes "h < length st"
  shows "transform st h options = (st @ [st ! h @ requested options operation_keys], length st)"
proof -
  have "fold (transform_step options) operation_keys (st @ [st ! h], length st)
      = ((st @ [st ! h])[length st := (st @ [st ! h]) ! length st @ requested options operation_keys], length st)"
    by (rule fold_transform_step) simp
  then show ?thesis
    by (simp add: transform_def clone_def)
qed

text \<open>
  C3. \<open>transform\<close> applies to the image the operations whose keys the spec has, in the
  fixed order blur, resize, max, min, crop, toFormat, each on the handle the previous
  one returned, and skips every operation whose key the spec does not have: the new
  handle holds the operations of the source handle followed by exactly those calls.
\<close>

theorem transform_applies_operations_in_order:
  assumes "img < length st"
  shows "snd (transform st img options) = length st \<and>
    fst (transform st img options) ! snd (transform st img options) =
      st ! img @
      map (\<lambda>key. (key, arguments (get_prop options key)))
        (filter (\<lambda>key. key \<in> fst ` set options)
           [js ''blur'', js ''resize'', js ''max'', js ''min'', js ''crop'', js ''toFormat''])"
  using transform_result [OF assms, of options]
  by (simp add: requested_def operation_keys_def)

theorem transform_applies_operations_in_order_witness:
  "(0::nat) < length [[] :: number pipeline] \<and>
   transform [[]] 0
     [(js ''toFormat'', Str (js ''webp'')),
      (js ''resize'', Arr [Num (Some 50), Num (Some 50)]),
      (js ''inline'', Bool False),
      (js ''blur'', Num (Some 3))] =
   ([[], [(js ''blur'', [Num (Some 3)]),
          (js ''resize'', [Num (Some 50), Num (Some 50)]),
          (js ''toFormat'', [Str (js ''webp'')])]], 1 :: nat)"
  using transform_applies_operations_in_order
    [of 0 "[[] :: number pipeline]"
      "[(js ''toFormat'', Str (js ''webp'')),
        (js ''resize'', Arr [Num (Some 50), Num (Some 50)]),
        (js ''inline'', Bool False),
        (js ''blur'', Num (Some 3))]"]
  by (simp add: js_eq_iff transform_def clone_def operation_keys_def transform_step_def
      invoke_def arguments_def get_prop_def own_def)

text \<open>
  C9. \<open>transform\<close> works on a clone: the handle it returns is not the one it was given,
  every handle of the store, the source among them, keeps its state, and a second
  transformation of the same source gives what it gives on its own and leaves the result
  of the first as it is.
\<close>

theorem transform_works_on_a_clone:
  assumes "img < length st"
  shows "snd (transform st img options) \<noteq> img \<and>
    take (length st) (fst (transform st img options)) = st \<and>
    fst (transform st img options) ! img = st ! img \<and>
    (let first = transform st img options;
         second = transform (fst first) img sibling
     in fst second ! snd second = fst (transform st img sibling) ! snd (transform st img sibling) \<and>
        fst second ! snd first = fst first ! snd first \<and>
        fst second ! img = st ! img)"
proof -
  let ?st1 = "st @ [st ! img @ requested options operation_keys]"
  have first: "transform st img options = (?st1, length st)"
    using assms by (rule transform_result)
  have img1: "img < length ?st1" using assms by simp
  have second: "transform ?st1 img sibling
      = (?st1 @ [?st1 ! img @ requested sibling operation_keys], length ?st1)"
    using img1 by (rule transform_result)
  have alone: "transform st img sibling
      = (st @ [st ! img @ requested sibling operation_keys], length st)"
    using assms by (rule transform_result)
  show ?thesis
    using assms by (simp add: first second alone Let_def nth_append)
qed

theorem transform_works_on_a_clone_witness:
  "(0::nat) < length [[(js ''rotate'', [])] :: number pipeline] \<and>
   transform [[(js ''rotate'', [])]] 0 [(js ''max'', Bool True :: number jsval)] =
     ([[(js ''rotate'', [])], [(js ''rotate'', []), (js ''max'', [Bool True])]], 1) \<and>
   fst (transform (fst (transform [[(js ''rotate'', [])]] 0 [(js ''max'', Bool True :: number jsval)]))
          0 [(js ''min'', Bool True)]) =
     [[(js ''rotate'', [])],
      [(js ''rotate'', []), (js ''max'', [Bool True])],
      [(js ''rotate'', []), (js ''min'', [Bool True])]]"
  using transform_works_on_a_clone
    [of 0 "[[(js ''rotate'', [])] :: number pipeline]" "[(js ''max'', Bool True)]"
      "[(js ''min'', Bool True)]"]
  by (simp add: js_eq_iff transform_def clone_def operation_keys_def transform_step_def
      invoke_def arguments_def get_prop_def own_def)

section \<open>Building the transform spec\<close>

lemma get_prop_obj_set:
  "get_prop (obj_set k v ps) k' = (if k' = k then v else get_prop ps k')"
  by (simp add: get_prop_def own_obj_set)

lemma normalizeSharpOptions_explicit:
  "normalizeSharpOptions rt options meta base =
     (if truthy rt (get_prop options (js ''density'')) \<and> own base (js ''density'') = None
      then Inl TypeError
      else Inr (
        (if truthy rt (get_prop options (js ''format''))
         then [(js ''toFormat'', get_prop options (js ''format''))] else []) @
        (if truthy rt (get_prop options (js ''density''))
         then [(js ''resize'', density_resize rt options meta (the (own base (js ''density''))))]
         else if truthy rt (get_prop options (js ''width'')) \<or>
                 truthy rt (get_prop options (js ''height''))
         then [(js ''resize'', Arr [get_prop options (js ''width''), get_prop options (js ''height'')])]
         else []) @
        [if get_prop options (js ''mode'') = Str (js ''cover'') then (js ''min'', Bool True)
         else if get_prop options (js ''mode'') = Str (js ''contain'') then (js ''max'', Bool True)
         else (js ''crop'', gravityCenter rt),
         (js ''inline'', Bool (truthy rt (get_prop options (js ''inline''))))]))"
  by (cases "own base (js ''density'')")
     (simp_all add: normalizeSharpOptions_def fit_mode_def Let_def js_eq_iff)

lemma own_Cons: "own ((k, v) # ps) k' = (if k' = k then Some v else own ps k')"
  by (simp add: own_def)

lemma js_Nil_iff: "js s = [] \<longleftrightarrow> s = []"
  by (simp add: js_def)

lemma own_Nil: "own [] k = None"
  by (simp add: own_def)

text \<open>
  C4, as stated, lets every density that is set override the resize. The guard is
  \<open>if (options.density)\<close>: a density of 0 is set and falsy, the branch is skipped and the
  resize is the one of width and height (50 by 50 here), not the density-scaled one
  (0 by 0 for a source of 100 by 100 and declared densities 0 and 2).
\<close>

theorem density_zero_counterexample:
  "normalizeSharpOptions sample_env
     [(js ''density'', Num (Some 0)), (js ''width'', Num (Some 50)), (js ''height'', Num (Some 50))]
     [(js ''width'', Num (Some 100)), (js ''height'', Num (Some 100))]
     [(js ''density'', [Num (Some 0), Num (Some 2)]),
      (js ''width'', [Num (Some 50)]), (js ''height'', [Num (Some 50)])] =
   Inr [(js ''resize'', Arr [Num (Some 50), Num (Some 50)]),
        (js ''crop'', Num (Some 0)),
        (js ''inline'', Bool False)] \<and>
   density_resize sample_env
     [(js ''density'', Num (Some 0)), (js ''width'', Num (Some 50)), (js ''height'', Num (Some 50))]
     [(js ''width'', Num (Some 100)), (js ''height'', Num (Some 100))]
     [Num (Some 0), Num (Some 2)] =
   Arr [Num (Some 0), Num (Some 0)]"
  by (simp add: normalizeSharpOptions_explicit density_resize_def get_prop_def own_Cons own_Nil
      js_eq_iff js_Nil_iff sample_env_def sample_toNumber_def sample_times_def sample_divide_def)

text \<open>
  C4, amended. When the density of the combination is truthy, the resize of the built
  spec is the intrinsic width and height of the source, each multiplied by the density
  divided by the maximum of the densities the base declaration lists, whatever width and
  height say. When the density is absent or falsy, the resize is that of width and
  height, or absent when both are falsy.
\<close>

theorem density_resize_overrides_when_truthy:
  "(truthy rt (get_prop options (js ''density'')) \<and> own base (js ''density'') = Some declared \<longrightarrow>
      (case normalizeSharpOptions rt options meta base of
         Inl e \<Rightarrow> False
       | Inr spec \<Rightarrow>
           get_prop spec (js ''resize'') =
             Arr [Num (times rt (toNumber rt (get_prop meta (js ''width'')))
                    (divide_num rt (toNumber rt (get_prop options (js ''density'')))
                       (mathMax rt (map (toNumber rt) declared)))),
                  Num (times rt (toNumber rt (get_prop meta (js ''height'')))
                    (divide_num rt (toNumber rt (get_prop options (js ''density'')))
                       (mathMax rt (map (toNumber rt) declared))))])) \<and>
   (\<not> truthy rt (get_prop options (js ''density'')) \<longrightarrow>
      (case normalizeSharpOptions rt options meta base of
         Inl e \<Rightarrow> False
       | Inr spec \<Rightarrow>
           get_prop spec (js ''resize'') =
             (if truthy rt (get_prop options (js ''width'')) \<or>
                 truthy rt (get_prop options (js ''height''))
              then Arr [get_prop options (js ''width''), get_prop options (js ''height'')]
              else Undefined)))"
  by (simp add: normalizeSharpOptions_explicit density_resize_def Let_def get_prop_def
      own_Cons own_Nil own_def js_eq_iff)

theorem density_resize_overrides_when_truthy_witness:
  "truthy sample_env
     (get_prop [(js ''format'', Str (js ''webp'')), (js ''density'', Num (Some 2)),
                (js ''width'', Num (Some 50)), (js ''height'', Num (Some 50))] (js ''density'')) \<and>
   own [(js ''format'', [Str (js ''webp''), Str (js ''jpeg'')]),
        (js ''density'', [Num (Some 1), Num (Some 2)]),
        (js ''width'', [Num (Some 50)]), (js ''height'', [Num (Some 50)])] (js ''density'')
     = Some [Num (Some 1), Num (Some 2)] \<and>
   normalizeSharpOptions sample_env
     [(js ''format'', Str (js ''webp'')), (js ''density'', Num (Some 2)),
      (js ''width'', Num (Some 50)), (js ''height'', Num (Some 50))]
     [(js ''width'', Num (Some 100)), (js ''height'', Num (Some 100))]
     [(js ''format'', [Str (js ''webp''), Str (js ''jpeg'')]),
      (js ''density'', [Num (Some 1), Num (Some 2)]),
      (js ''width'', [Num (Some 50)]), (js ''height'', [Num (Some 50)])] =
   Inr [(js ''toFormat'', Str (js ''webp'')),
        (js ''resize'', Arr [Num (Some 100), Num (Some 100)]),
        (js ''crop'', Num (Some 0)),
        (js ''inline'', Bool False)]"
  using density_resize_overrides_when_truthy
    [of sample_env
      "[(js ''format'', Str (js ''webp'')), (js ''density'', Num (Some 2)),
        (js ''width'', Num (Some 50)), (js ''height'', Num (Some 50))]"
      "[(js ''format'', [Str (js ''webp''), Str (js ''jpeg'')]),
        (js ''density'', [Num (Some 1), Num (Some 2)]),
        (js ''width'', [Num (Some 50)]), (js ''height'', [Num (Some 50)])]"
      "[Num (Some 1), Num (Some 2)]"
      "[(js ''width'', Num (Some 100)), (js ''height'', Num (Some 100))]"]
  by (simp add: normalizeSharpOptions_explicit density_resize_def get_prop_def own_Cons own_Nil
      js_eq_iff js_Nil_iff sample_env_def sample_toNumber_def sample_times_def sample_divide_def)

section \<open>The fit strategy\<close>

lemma normalize_value:
  "\<forall>f. val \<noteq> Fun f \<Longrightarrow>
   normalize_entry rt args key val =
     Some (case val of Arr vs \<Rightarrow> map (normalizeProperty rt key) vs
           | _ \<Rightarrow> [normalizeProperty rt key val])"
  by (subst normalize_entry.simps) (cases val; simp)

lemma normalizeSharpOptions_shape:
  "\<exists>pre. fst ` set pre \<subseteq> {js ''toFormat'', js ''resize''} \<and>
     normalizeSharpOptions rt options meta base =
       (if truthy rt (get_prop options (js ''density'')) \<and> own base (js ''density'') = None
        then Inl TypeError
        else Inr (pre @ [fit_pair rt options,
                         (js ''inline'', Bool (truthy rt (get_prop options (js ''inline''))))]))"
proof -
  let ?pre = "(if truthy rt (get_prop options (js ''format''))
         then [(js ''toFormat'', get_prop options (js ''format''))] else []) @
        (if truthy rt (get_prop options (js ''density''))
         then [(js ''resize'', density_resize rt options meta (the (own base (js ''density''))))]
         else if truthy rt (get_prop options (js ''width'')) \<or>
                 truthy rt (get_prop options (js ''height''))
         then [(js ''resize'', Arr [get_prop options (js ''width''), get_prop options (js ''height'')])]
         else [])"
  have "fst ` set ?pre \<subseteq> {js ''toFormat'', js ''resize''}"
    by auto
  moreover have "normalizeSharpOptions rt options meta base =
       (if truthy rt (get_prop options (js ''density'')) \<and> own base (js ''density'') = None
        then Inl TypeError
        else Inr (?pre @ [fit_pair rt options,
                         (js ''inline'', Bool (truthy rt (get_prop options (js ''inline''))))]))"
    unfolding normalizeSharpOptions_explicit fit_pair_def by simp
  ultimately show ?thesis by blast
qed

lemma own_append_fresh: "k \<notin> fst ` set pre \<Longrightarrow> own (pre @ ps) k = own ps k"
  by (induction pre) (auto simp: own_def)

lemma own_None_iff: "own ps k = None \<longleftrightarrow> k \<notin> fst ` set ps"
  by (simp add: own_def map_of_eq_None_iff)

lemma requested_Nil: "requested spec [] = []"
  by (simp add: requested_def)

lemma requested_Cons:
  "requested spec (k # ks) =
     (if own spec k = None then requested spec ks
      else (k, arguments (get_prop spec k)) # requested spec ks)"
  by (simp add: requested_def own_None_iff)

lemma filter_requested:
  "filter (\<lambda>c. P (fst c)) (requested spec ks) = requested spec (filter P ks)"
  by (induction ks) (simp_all add: requested_Nil requested_Cons)

lemma fit_keys: "filter (\<lambda>k. k \<in> {js ''max'', js ''min'', js ''crop''}) operation_keys
    = [js ''max'', js ''min'', js ''crop'']"
  by (simp add: operation_keys_def js_eq_iff)

lemma fit_own:
  assumes "fst ` set pre \<subseteq> {js ''toFormat'', js ''resize''}"
    and "k' \<in> {js ''max'', js ''min'', js ''crop''}"
  shows "own (pre @ [(k, v), (js ''inline'', b)]) k' = (if k' = k then Some v else None)"
proof -
  have "k' \<notin> {js ''toFormat'', js ''resize''}"
    using assms(2) by (auto simp: js_eq_iff)
  then have "k' \<notin> fst ` set pre"
    using assms(1) by blast
  then have "own (pre @ [(k, v), (js ''inline'', b)]) k' = own [(k, v), (js ''inline'', b)] k'"
    by (rule own_append_fresh)
  moreover have "k' \<noteq> js ''inline''"
    using assms(2) by (auto simp: js_eq_iff)
  ultimately show ?thesis
    by (simp add: own_Cons own_Nil)
qed

lemma fit_calls:
  assumes "fst ` set pre \<subseteq> {js ''toFormat'', js ''resize''}"
    and "k \<in> {js ''max'', js ''min'', js ''crop''}"
  shows "filter (\<lambda>c. fst c \<in> {js ''max'', js ''min'', js ''crop''})
           (requested (pre @ [(k, v), (js ''inline'', b)]) operation_keys) = [(k, arguments v)]"
proof -
  let ?spec = "pre @ [(k, v), (js ''inline'', b)]"
  have o: "own ?spec (js ''max'') = (if js ''max'' = k then Some v else None)"
    "own ?spec (js ''min'') = (if js ''min'' = k then Some v else None)"
    "own ?spec (js ''crop'') = (if js ''crop'' = k then Some v else None)"
    using fit_own [OF assms(1), of _ k v b] by simp_all
  have "filter (\<lambda>c. fst c \<in> {js ''max'', js ''min'', js ''crop''}) (requested ?spec operation_keys)
      = requested ?spec [js ''max'', js ''min'', js ''crop'']"
    using filter_requested [of "\<lambda>k. k \<in> {js ''max'', js ''min'', js ''crop''}" ?spec operation_keys]
    by (simp only: fit_keys)
  also have "\<dots> = [(k, arguments v)]"
  proof -
    consider "k = js ''max''" | "k = js ''min''" | "k = js ''crop''"
      using assms(2) by blast
    then show ?thesis
      by cases (use o in \<open>simp_all add: requested_Cons requested_Nil get_prop_def js_eq_iff\<close>)
  qed
  finally show ?thesis .
qed

text \<open>
  C8. The built spec has exactly one of the keys min, max and crop, and the mode option
  alone decides which: cover gives \<open>min: true\<close>, contain gives \<open>max: true\<close>, anything
  else, an absent mode included, gives \<open>crop\<close> with the centre gravity; accordingly
  \<open>transform\<close> makes one call among max, min and crop. Building the spec fails only
  when a truthy density meets a base declaration without densities. The witness is the
  preset \<open>{mode: 'contain', width: 50, height: 50}\<close>, normalized, expanded, built and
  transformed: a resize and one max call, no crop call.
\<close>

theorem mode_selects_fit_strategy:
  "(case normalizeSharpOptions rt options meta base of
      Inl e \<Rightarrow> truthy rt (get_prop options (js ''density'')) \<and> own base (js ''density'') = None
    | Inr spec \<Rightarrow>
        (get_prop options (js ''mode'') = Str (js ''cover'') \<longrightarrow>
           own spec (js ''min'') = Some (Bool True) \<and>
           own spec (js ''max'') = None \<and> own spec (js ''crop'') = None \<and>
           filter (\<lambda>c. fst c \<in> {js ''max'', js ''min'', js ''crop''})
             (requested spec operation_keys) = [(js ''min'', [Bool True])]) \<and>
        (get_prop options (js ''mode'') = Str (js ''contain'') \<longrightarrow>
           own spec (js ''max'') = Some (Bool True) \<and>
           own spec (js ''min'') = None \<and> own spec (js ''crop'') = None \<and>
           filter (\<lambda>c. fst c \<in> {js ''max'', js ''min'', js ''crop''})
             (requested spec operation_keys) = [(js ''max'', [Bool True])]) \<and>
        (get_prop options (js ''mode'') \<noteq> Str (js ''cover'') \<and>
         get_prop options (js ''mode'') \<noteq> Str (js ''contain'') \<longrightarrow>
           own spec (js ''crop'') = Some (gravityCenter rt) \<and>
           own spec (js ''min'') = None \<and> own spec (js ''max'') = None \<and>
           filter (\<lambda>c. fst c \<in> {js ''max'', js ''min'', js ''crop''})
             (requested spec operation_keys) = [(js ''crop'', arguments (gravityCenter rt))]))"
proof -
  obtain pre where pre: "fst ` set pre \<subseteq> {js ''toFormat'', js ''resize''}"
    and shape: "normalizeSharpOptions rt options meta base =
       (if truthy rt (get_prop options (js ''density'')) \<and> own base (js ''density'') = None
        then Inl TypeError
        else Inr (pre @ [fit_pair rt options,
                         (js ''inline'', Bool (truthy rt (get_prop options (js ''inline''))))]))"
    using normalizeSharpOptions_shape [of rt options meta base] by blast
  let ?b = "Bool (truthy rt (get_prop options (js ''inline'')))"
  have facts: "own (pre @ [(k, v), (js ''inline'', ?b)]) (js ''min'') = (if js ''min'' = k then Some v else None) \<and>
      own (pre @ [(k, v), (js ''inline'', ?b)]) (js ''max'') = (if js ''max'' = k then Some v else None) \<and>
      own (pre @ [(k, v), (js ''inline'', ?b)]) (js ''crop'') = (if js ''crop'' = k then Some v else None) \<and>
      filter (\<lambda>c. fst c \<in> {js ''max'', js ''min'', js ''crop''})
        (requested (pre @ [(k, v), (js ''inline'', ?b)]) operation_keys) = [(k, arguments v)]"
    if "k \<in> {js ''max'', js ''min'', js ''crop''}" for k v
    using fit_own [OF pre, of _ k v ?b] fit_calls [OF pre that, of v ?b] by simp
  show ?thesis
  proof (cases "truthy rt (get_prop options (js ''density'')) \<and> own base (js ''density'') = None")
    case True
    then show ?thesis by (simp add: shape)
  next
    case False
    then have spec: "normalizeSharpOptions rt options meta base =
        Inr (pre @ [fit_pair rt options, (js ''inline'', ?b)])"
      by (simp only: shape if_False)
    consider (cover) "get_prop options (js ''mode'') = Str (js ''cover'')"
      | (contain) "get_prop options (js ''mode'') = Str (js ''contain'')"
      | (other) "get_prop options (js ''mode'') \<noteq> Str (js ''cover'')"
          "get_prop options (js ''mode'') \<noteq> Str (js ''contain'')"
      by blast
    then show ?thesis
    proof cases
      case cover
      then have fp: "fit_pair rt options = (js ''min'', Bool True)"
        by (simp add: fit_pair_def)
      have "Str (js ''cover'') \<noteq> (Str (js ''contain'') :: 'a jsval)"
        by (simp add: js_eq_iff)
      then show ?thesis
        using facts [of "js ''min''" "Bool True"] cover
        by (simp add: spec fp js_eq_iff arguments_def)
    next
      case contain
      have ne: "Str (js ''contain'') \<noteq> (Str (js ''cover'') :: 'a jsval)"
        by (simp add: js_eq_iff)
      then have fp: "fit_pair rt options = (js ''max'', Bool True)"
        using contain by (simp add: fit_pair_def)
      show ?thesis
        using facts [of "js ''max''" "Bool True"] contain ne
        by (simp add: spec fp js_eq_iff arguments_def)
    next
      case other
      then have fp: "fit_pair rt options = (js ''crop'', gravityCenter rt)"
        by (simp add: fit_pair_def)
      show ?thesis
        using facts [of "js ''crop''" "gravityCenter rt"] other
        by (simp add: spec fp js_eq_iff)
    qed
  qed
qed

theorem mode_selects_fit_strategy_witness:
  "normalizePreset sample_env
     [(js ''mode'', Str (js ''contain'')), (js ''width'', Num (Some 50)), (js ''height'', Num (Some 50))]
     [Obj [(js ''width'', Num (Some 100)), (js ''height'', Num (Some 100))]] =
   Some [(js ''mode'', [Str (js ''contain'')]),
         (js ''width'', [Num (Some 50)]), (js ''height'', [Num (Some 50)])] \<and>
   multiplex [(js ''mode'', [Str (js ''contain'')]),
              (js ''width'', [Num (Some 50)]), (js ''height'', [Num (Some (50 :: rat))])] =
     [[(js ''mode'', Str (js ''contain'')),
       (js ''width'', Num (Some 50)), (js ''height'', Num (Some 50))]] \<and>
   normalizeSharpOptions sample_env
     [(js ''mode'', Str (js ''contain'')), (js ''width'', Num (Some 50)), (js ''height'', Num (Some 50))]
     [(js ''width'', Num (Some 100)), (js ''height'', Num (Some 100))]
     [(js ''mode'', [Str (js ''contain'')]),
      (js ''width'', [Num (Some 50)]), (js ''height'', [Num (Some 50)])] =
   Inr [(js ''resize'', Arr [Num (Some 50), Num (Some 50)]),
        (js ''max'', Bool True),
        (js ''inline'', Bool False)] \<and>
   transform [[]] 0
     [(js ''resize'', Arr [Num (Some 50), Num (Some (50 :: rat))]),
      (js ''max'', Bool True),
      (js ''inline'', Bool False)] =
   ([[], [(js ''resize'', [Num (Some 50), Num (Some 50)]), (js ''max'', [Bool True])]], 1)"
  using mode_selects_fit_strategy
    [where rt = sample_env
      and options = "[(js ''mode'', Str (js ''contain'')), (js ''width'', Num (Some 50)), (js ''height'', Num (Some 50))]"
      and meta = "[(js ''width'', Num (Some 100)), (js ''height'', Num (Some 100))]"
      and base = "[(js ''mode'', [Str (js ''contain'')]),
        (js ''width'', [Num (Some 50)]), (js ''height'', [Num (Some 50)])]"]
  by (simp add: normalizePreset_def normalize_value normalizeProperty_def
      multiplex_def entry_at_def
      normalizeSharpOptions_explicit get_prop_def own_Cons own_Nil own_def
      js_eq_iff js_Nil_iff sample_env_def sample_toNumber_def
      transform_def clone_def operation_keys_def transform_step_def invoke_def arguments_def)

section \<open>A preset the table does not have\<close>

lemma spread_falsy: "\<not> truthy rt v \<Longrightarrow> spread v = []"
  by (cases v) (simp_all add: spread_def)

lemma normalizePreset_overrides_only:
  "normalizePreset rt [(js ''preset'', Obj extra)] args = Some [(js ''preset'', [Obj extra])]"
  by (simp add: normalizePreset_def normalize_value normalizeProperty_def get_prop_def own_Cons
      js_eq_iff)

text \<open>
  C5. An invocation that selects a preset the declared table does not have should fail
  at once, with a message that names the preset. \<open>handle\<close> does return one rejected
  promise and calls \<open>emit\<close> for no combination; but the message interpolates its
  parameter \<open>preset\<close>, which is the object of the invocation's overrides, and not
  \<open>name\<close>: whatever the selected name, the message is
  \<open>No such preset: [object Object]\<close>. The witness selects \<open>doesnotexist\<close>.
\<close>

theorem handle_missing_preset_message:
  assumes "truthy rt nm"
    and "\<not> truthy rt (get_member rt presets (toStr rt nm))"
  shows "handle rt img (Obj extra) nm presets emit_fn =
    Some [Inl (Str (js ''No such preset: [object Object]''))]"
proof -
  have "js ''No such preset: '' @ toStr rt (Obj extra) = js ''No such preset: [object Object]''"
    by (simp add: js_def)
  then show ?thesis
    using assms by (simp add: handle_def spread_falsy normalizePreset_overrides_only)
qed

theorem handle_missing_preset_message_witness:
  "truthy sample_env (Str (js ''doesnotexist'')) \<and>
   \<not> truthy sample_env
      (get_member sample_env
         [(js ''thumbnail'', Obj [(js ''format'', Str (js ''webp''))])]
         (toStr sample_env (Str (js ''doesnotexist'')))) \<and>
   handle sample_env \<lparr>addr = 0, image_meta = [(js ''width'', Num (Some 100))]\<rparr>
     (Obj []) (Str (js ''doesnotexist''))
     [(js ''thumbnail'', Obj [(js ''format'', Str (js ''webp''))])]
     (\<lambda>nm options img base. ()) =
   Some [Inl (Str (js ''No such preset: [object Object]''))]"
  using handle_missing_preset_message
    [of sample_env "Str (js ''doesnotexist'')"
      "[(js ''thumbnail'', Obj [(js ''format'', Str (js ''webp''))])]"
      "\<lparr>addr = 0, image_meta = [(js ''width'', Num (Some 100))]\<rparr>" "[]"
      "\<lambda>nm options img base. ()"]
  by (simp add: get_member_def own_Cons own_Nil js_eq_iff js_Nil_iff sample_env_def
      inherited_names_def)

section \<open>What the serializer renders\<close>

lemma get_prop_key:
  "distinct (map fst ps) \<Longrightarrow> (k, v) \<in> set ps \<Longrightarrow> get_prop ps k = v"
  by (simp add: get_prop_def own_def)

lemma map_pairs_by_key:
  "distinct (map fst ps) \<Longrightarrow>
   map (\<lambda>(key, v). f key v) ps = map (\<lambda>key. f key (get_prop ps key)) (map fst ps)"
  by (auto simp: get_prop_key)

lemma serialize_object_by_keys:
  "distinct (map fst source) \<Longrightarrow>
   serialize rt (Obj source) =
     js ''{'' @
     join (js '','')
       (map (\<lambda>key. [dquote] @ safeString key @ [dquote] @ js '': '' @
                 serialize rt (get_prop source key))
          (map fst source)) @
     js ''}''"
proof -
  assume "distinct (map fst source)"
  then have "map (\<lambda>(key, v). [dquote] @ safeString key @ [dquote] @ js '': '' @ serialize rt v) source =
      map (\<lambda>key. [dquote] @ safeString key @ [dquote] @ js '': '' @
                 serialize rt (get_prop source key)) (map fst source)"
    by (rule map_pairs_by_key)
  moreover have "serialize rt (Obj source) =
     js ''{'' @
     join (js '','')
       (map (\<lambda>(key, v). [dquote] @ safeString key @ [dquote] @ js '': '' @ serialize rt v) source) @
     js ''}''"
    by simp
  ultimately show ?thesis
    by (simp only:)
qed

text \<open>
  C7. \<open>serialize\<close> should render a string as a double-quoted escaped literal, as a value
  and as an object key. It renders \<open>safeString\<close> of the string between double quotes, and
  \<open>safeString\<close> replaces the first unsafe character only: the string \<open>a"b"c\<close> is rendered
  with its first double quote escaped and its second one as it is, so the literal ends
  after \<open>b\<close>, and the same happens to the key of an object.
\<close>

theorem serialize_string_second_quote_unescaped:
  "serialize rt (Str (js ''a'' @ [dquote] @ js ''b'' @ [dquote] @ js ''c'')) =
     [dquote] @ js ''a'' @ [backslash, dquote] @ js ''b'' @ [dquote] @ js ''c'' @ [dquote] \<and>
   serialize rt (Obj [(js ''a'' @ [dquote] @ js ''b'' @ [dquote] @ js ''c'', Null)]) =
     js ''{'' @
     [dquote] @ js ''a'' @ [backslash, dquote] @ js ''b'' @ [dquote] @ js ''c'' @ [dquote] @
     js '': null}''"
  by (simp add: safeString_def js_def unsafe_class_def own_def UNICODE_CHARS_def
      dquote_def backslash_def)

section \<open>Delivery of an asset\<close>

lemma map_of_obj_set:
  "map_of (obj_set k v ps) k' = (if k' = k then Some v else map_of ps k')"
  using own_obj_set [of k v ps k'] by (simp add: own_def)

lemma own_assign_all:
  "own (assign_all ps r) k = (case own (rev ps) k of Some v \<Rightarrow> Some v | None \<Rightarrow> own r k)"
  unfolding own_def
proof (induction ps arbitrary: r)
  case Nil
  then show ?case by (simp add: assign_all_def)
next
  case (Cons p ps)
  obtain k' v' where p: "p = (k', v')" by (cases p)
  have "assign_all (p # ps) r = assign_all ps (obj_set k' v' r)"
    by (simp add: assign_all_def p)
  then have "map_of (assign_all (p # ps) r) k =
      (case map_of (rev ps) k of Some v \<Rightarrow> Some v | None \<Rightarrow> map_of (obj_set k' v' r) k)"
    using Cons.IH [of "obj_set k' v' r"] by simp
  then show ?case
    by (auto simp: p map_of_obj_set map_add_def split: option.splits)
qed

lemma asset_fields:
  "get_prop (assign_all (ps @ [(js ''type'', t), (js ''preset'', p), (js ''name'', n), (js ''url'', u)]) [])
     (js ''url'') = u \<and>
   get_prop (assign_all (ps @ [(js ''type'', t), (js ''preset'', p), (js ''name'', n), (js ''url'', u)]) [])
     (js ''name'') = n \<and>
   get_prop (assign_all (ps @ [(js ''type'', t), (js ''preset'', p), (js ''name'', n), (js ''url'', u)]) [])
     (js ''preset'') = p \<and>
   get_prop (assign_all (ps @ [(js ''type'', t), (js ''preset'', p), (js ''name'', n), (js ''url'', u)]) [])
     (js ''type'') = t"
  by (simp add: get_prop_def own_assign_all own_Cons js_eq_iff)

lemma data_uri:
  "join_vals rt [] [Str (js ''data:''), t, Str (js '';base64,''), Str b] =
     js ''data:'' @ content_type_text rt t @ js '';base64,'' @ b"
  by (simp add: join_vals_def content_type_text_def)

text \<open>
  What \<open>data\<close> delivers, given the name: the name field, the url field in both cases
  and the file sink.
\<close>

lemma emit_data_delivery:
  assumes "emit_name rt input global loader info options = Inr n"
  shows "case emit_data rt input global loader files img info options preset of
      Inl e \<Rightarrow> False
    | Inr (asset, files') \<Rightarrow>
        get_prop asset (js ''name'') = Str n \<and>
        (truthy rt (get_prop options (js ''inline'')) \<longrightarrow>
           get_prop asset (js ''url'') =
             Str (js ''data:'' @ content_type_text rt (getType rt n) @ js '';base64,'' @
                  toBase64 rt img) \<and>
           files' = files) \<and>
        (\<not> truthy rt (get_prop options (js ''inline'')) \<longrightarrow>
           get_prop asset (js ''url'') =
             Serializable (js ''__webpack_public_path__ + '' @ [dquote] @ safeString n @ [dquote]) \<and>
           serialize rt (get_prop asset (js ''url'')) =
             js ''__webpack_public_path__ + '' @ serialize rt (Str n) \<and>
           files' = files @ [(n, img)])"
proof -
  define url where "url = asset_url rt options (getType rt n) n img"
  define asset where "asset = assign_all
     (options @ info @
      [(js ''type'', getType rt n), (js ''preset'', preset), (js ''name'', Str n),
       (js ''url'', url)]) []"
  have ed: "emit_data rt input global loader files img info options preset =
      Inr (asset, if \<not> truthy rt (get_prop options (js ''inline''))
                  then files @ [(n, img)] else files)"
    using assms by (simp add: emit_data_def Let_def asset_def url_def)
  have fields: "get_prop asset (js ''url'') = url" "get_prop asset (js ''name'') = Str n"
    using asset_fields [of "options @ info" "getType rt n" preset "Str n" url]
    by (simp_all add: asset_def)
  show ?thesis
  proof (cases "truthy rt (get_prop options (js ''inline''))")
    case True
    then have "url = Str (js ''data:'' @ content_type_text rt (getType rt n) @ js '';base64,'' @
        toBase64 rt img)"
      by (simp add: url_def asset_url_def data_uri)
    then show ?thesis
      using True by (simp add: ed fields)
  next
    case False
    then have "url = Serializable (js ''__webpack_public_path__ + '' @ [dquote] @ safeString n @ [dquote])"
      by (simp add: url_def asset_url_def)
    then show ?thesis
      using False by (simp add: ed fields)
  qed
qed

text \<open>
  C6. The url of an asset that is not inline should render as the base-path variable
  concatenated with the safely serialized name. It renders as
  \<open>__webpack_public_path__ + \<close> and \<open>serialize\<close> of the name, and \<open>serialize\<close> escapes
  the first unsafe character only: with the name template \<open>img/variants/[name].[ext]\<close>
  the computed name is \<open>img/variants/cat.png\<close>, the file is emitted under that name, and
  the rendered url has the first slash escaped and the second one as it is. The inline
  case and the file emission are as the claim says.
\<close>

theorem data_url_keeps_second_slash:
  "emit_data sample_env [1, 2, 3] [(js ''name'', Str (js ''img/variants/[name].[ext]''))]
     \<lparr>resourcePath = js ''/src/cat.jpg'', loader_options = []\<rparr> []
     [0x4D, 0x61, 0x6E]
     [(js ''format'', Str (js ''png'')), (js ''width'', Num (Some 50))]
     [(js ''format'', Str (js ''png''))]
     (Str (js ''thumbnail'')) =
   Inr ([(js ''format'', Str (js ''png'')),
         (js ''width'', Num (Some 50)), (js ''type'', Str (js ''image/png'')),
         (js ''preset'', Str (js ''thumbnail'')),
         (js ''name'', Str (js ''img/variants/cat.png'')),
         (js ''url'',
          Serializable
            (js ''__webpack_public_path__ + '' @ [dquote] @ js ''img'' @ [backslash] @
             js ''u002Fvariants/cat.png'' @ [dquote]))],
        [(js ''img/variants/cat.png'', [0x4D, 0x61, 0x6E])]) \<and>
   serialize rt (asset_url rt [] type (js ''img/variants/cat.png'') img) =
     js ''__webpack_public_path__ + '' @ [dquote] @ js ''img'' @ [backslash] @
     js ''u002Fvariants/cat.png'' @ [dquote] \<and>
   (0x2F :: code_unit) \<in>
     set (serialize rt (asset_url rt [] type (js ''img/variants/cat.png'') img))"
  by (simp add: emit_data_def emit_name_def asset_url_def assign_all_def join_vals_def
      get_prop_def get_member_def own_def js_def
      sample_env_def inherited_names_def resolve_token_def sample_getType_def
      interpolation_path_def extension_def replace_ext_def after_last_def
      sample_interpolateName_def Let_def lbracket_def rbracket_def dot_def base64_digit_def
      safeString_def unsafe_class_def UNICODE_CHARS_def dquote_def backslash_def)

section \<open>The extension of the interpolated resource path\<close>

lemma replace_ext_split:
  assumes "ext \<noteq> []" and "dot \<notin> set ext"
  shows "replace_ext (stem @ dot # ext) text = stem @ text"
proof -
  have "takeWhile (\<lambda>d. d \<noteq> dot) (rev (stem @ dot # ext)) = rev ext"
    using assms(2) by (auto simp: takeWhile_tail)
  then show ?thesis
    using assms(1) by (simp add: replace_ext_def Let_def)
qed

lemma extension_table:
  "extension rt (Str (js ''webp'')) = Str (js ''.webp'')"
  "extension rt (Str (js ''jpeg'')) = Str (js ''.jpg'')"
  "extension rt (Str (js ''png'')) = Str (js ''.png'')"
  by (simp_all add: extension_def get_member_def own_Cons js_eq_iff)

lemma extension_other:
  "fmt \<notin> {js ''webp'', js ''jpeg'', js ''png''} \<Longrightarrow> extension rt (Str fmt) = objectProto rt fmt"
  by (simp add: extension_def get_member_def own_Cons own_Nil)

text \<open>
  C10. The extension lookup has the three entries webp, jpeg and png. For any other
  format of the encoder (a name that is no member inherited from \<open>Object.prototype\<close>
  either) it returns \<open>undefined\<close>; the resource path handed to \<open>interpolateName\<close>, whose
  extension \<open>name\<close> replaces by the result of the lookup, then ends in the text
  \<open>undefined\<close> where its extension, dot included, was.
\<close>

theorem extension_undefined_for_other_formats:
  "extension rt (Str (js ''webp'')) = Str (js ''.webp'') \<and>
   extension rt (Str (js ''jpeg'')) = Str (js ''.jpg'') \<and>
   extension rt (Str (js ''png'')) = Str (js ''.png'') \<and>
   (fmt \<notin> {js ''webp'', js ''jpeg'', js ''png''} \<and> objectProto rt fmt = Undefined \<longrightarrow>
      extension rt (Str fmt) = Undefined \<and>
      (ext \<noteq> [] \<and> dot \<notin> set ext \<and> resourcePath loader = stem @ [dot] @ ext \<and>
       get_prop info (js ''format'') = Str fmt \<longrightarrow>
         interpolation_path rt loader info = stem @ js ''undefined'' \<and>
         emit_name rt input options loader info params =
           (case (if truthy rt (get_prop params (js ''name'')) then get_prop params (js ''name'')
                  else if truthy rt (get_prop options (js ''name''))
                  then get_prop options (js ''name'')
                  else Str (js ''[name].[ext]'')) of
              Str t \<Rightarrow>
                Inr (interpolateName rt (stem @ js ''undefined'') (Obj (loader_options loader))
                       (replace_tokens (resolve_token rt info params) t)
                       (if truthy rt (get_prop options (js ''context''))
                        then get_prop options (js ''context'')
                        else get_prop (loader_options loader) (js ''context''))
                       input)
            | _ \<Rightarrow> Inl TypeError)))"
proof (intro conjI impI)
  show "extension rt (Str (js ''webp'')) = Str (js ''.webp'')"
    "extension rt (Str (js ''jpeg'')) = Str (js ''.jpg'')"
    "extension rt (Str (js ''png'')) = Str (js ''.png'')"
    by (rule extension_table)+
next
  assume other: "fmt \<notin> {js ''webp'', js ''jpeg'', js ''png''} \<and> objectProto rt fmt = Undefined"
  then show undef: "extension rt (Str fmt) = Undefined"
    by (simp add: extension_other)
  assume path: "ext \<noteq> [] \<and> dot \<notin> set ext \<and> resourcePath loader = stem @ [dot] @ ext \<and>
       get_prop info (js ''format'') = Str fmt"
  then show ip: "interpolation_path rt loader info = stem @ js ''undefined''"
    by (simp add: interpolation_path_def undef replace_ext_split)
  show "emit_name rt input options loader info params =
           (case (if truthy rt (get_prop params (js ''name'')) then get_prop params (js ''name'')
                  else if truthy rt (get_prop options (js ''name''))
                  then get_prop options (js ''name'')
                  else Str (js ''[name].[ext]'')) of
              Str t \<Rightarrow>
                Inr (interpolateName rt (stem @ js ''undefined'') (Obj (loader_options loader))
                       (replace_tokens (resolve_token rt info params) t)
                       (if truthy rt (get_prop options (js ''context''))
                        then get_prop options (js ''context'')
                        else get_prop (loader_options loader) (js ''context''))
                       input)
            | _ \<Rightarrow> Inl TypeError)"
    unfolding emit_name_def Let_def ip ..
qed

theorem extension_undefined_for_other_formats_witness:
  "js ''gif'' \<notin> {js ''webp'', js ''jpeg'', js ''png''} \<and>
   objectProto sample_env (js ''gif'') = Undefined \<and>
   extension sample_env (Str (js ''gif'')) = Undefined \<and>
   interpolation_path sample_env
     \<lparr>resourcePath = js ''/img/cat.gif'', loader_options = []\<rparr>
     [(js ''format'', Str (js ''gif''))] = js ''/img/catundefined''"
  using extension_undefined_for_other_formats
    [where rt = sample_env and fmt = "js ''gif''" and ext = "js ''gif''" and stem = "js ''/img/cat''"
      and loader = "\<lparr>resourcePath = js ''/img/cat.gif'', loader_options = []\<rparr>"
      and info = "[(js ''format'', Str (js ''gif''))]" and input = "[1, 2, 3]"
      and options = "[]" and params = "[]"]
  by (simp add: get_prop_def get_member_def own_def js_def sample_env_def inherited_names_def
      resolve_token_def sample_interpolateName_def after_last_def Let_def
      lbracket_def rbracket_def dot_def)

end
